theory Spec2Isabelle
  imports Complex_Main
begin

section \<open>Python values and exceptions\<close>

text \<open>
  The adapters are dynamically typed glue code: they inspect the run-time type of what
  the caller hands them and index into whatever the provider SDK returns.  The values
  that can flow through them are modelled by one datatype.  A dictionary is an
  association list with string keys (insertion order is kept, as in Python); a Python
  float is modelled by an exact real number, so rounding is outside the model.
\<close>

datatype pyval =
    PNone
  | PBool bool
  | PInt int
  | PFloat real
  | PStr string
  | PList "pyval list"
  | PDict "(string \<times> pyval) list"

text \<open>
  Every exception the code raises or catches is a subclass of \<open>Exception\<close>.  Each
  constructor carries the message the exception was raised with, and \<open>str_exc\<close> is
  \<open>str(e)\<close> for the exceptions that a handler wraps (a \<open>KeyError\<close> from a failed
  subscript carries the quoted key, as \<open>str\<close> renders it).  \<open>OtherException\<close> stands
  for any provider exception that is not a \<open>ValueError\<close>.  The last four are the
  library's own kinds (\<open>core/exceptions.py\<close>).
\<close>

datatype exn =
    KeyError string
  | ValueError string
  | IndexError string
  | TypeError string
  | OtherException string
  | ProviderError string
  | ConfigurationError string
  | VectorOperationError string
  | ValidationError string

fun str_exc :: "exn \<Rightarrow> string" where
  "str_exc (KeyError m) = m"
| "str_exc (ValueError m) = m"
| "str_exc (IndexError m) = m"
| "str_exc (TypeError m) = m"
| "str_exc (OtherException m) = m"
| "str_exc (ProviderError m) = m"
| "str_exc (ConfigurationError m) = m"
| "str_exc (VectorOperationError m) = m"
| "str_exc (ValidationError m) = m"

text \<open>Sequencing of computations that may raise: the first exception wins.\<close>

definition ebind :: "exn + 'a \<Rightarrow> ('a \<Rightarrow> exn + 'b) \<Rightarrow> exn + 'b" where
  "ebind m f = (case m of Inl e \<Rightarrow> Inl e | Inr x \<Rightarrow> f x)"

text \<open>\<open>str(i)\<close> for a non-negative integer, as an f-string renders a loop index.\<close>

definition digit_char :: "nat \<Rightarrow> char" where
  "digit_char d = char_of (48 + d)"

function str_nat :: "nat \<Rightarrow> string" where
  "str_nat n = (if n < 10 then [digit_char n] else str_nat (n div 10) @ [digit_char (n mod 10)])"
  by pat_completeness auto
termination
  by (relation "measure id") auto

declare str_nat.simps [simp del]

text \<open>\<open>sep.join(xs)\<close>.\<close>

fun join :: "string \<Rightarrow> string list \<Rightarrow> string" where
  "join sep [] = []"
| "join sep [x] = x"
| "join sep (x # y # ys) = x @ sep @ join sep (y # ys)"



subsection \<open>Subscripting, \<open>len\<close> and subtraction on dynamic values\<close>

text \<open>\<open>v[key]\<close> with a string key.\<close>

fun getitem_key :: "pyval \<Rightarrow> string \<Rightarrow> exn + pyval" where
  "getitem_key (PDict d) k =
     (case map_of d k of
        None \<Rightarrow> Inl (KeyError (CHR 0x27 # k @ [CHR 0x27]))
      | Some v \<Rightarrow> Inr v)"
| "getitem_key (PList xs) k = Inl (TypeError ''list indices must be integers or slices, not str'')"
| "getitem_key (PStr s) k = Inl (TypeError ''string indices must be integers'')"
| "getitem_key v k = Inl (TypeError ''object is not subscriptable'')"

text \<open>\<open>v[i]\<close> with a non-negative integer index.\<close>

fun getitem_idx :: "pyval \<Rightarrow> nat \<Rightarrow> exn + pyval" where
  "getitem_idx (PList xs) i =
     (if i < length xs then Inr (xs ! i) else Inl (IndexError ''list index out of range''))"
| "getitem_idx (PStr s) i =
     (if i < length s then Inr (PStr [s ! i]) else Inl (IndexError ''string index out of range''))"
| "getitem_idx (PDict d) i = Inl (KeyError (str_nat i))"
| "getitem_idx v i = Inl (TypeError ''object is not subscriptable'')"

fun py_len :: "pyval \<Rightarrow> exn + nat" where
  "py_len (PList xs) = Inr (length xs)"
| "py_len (PStr s) = Inr (length s)"
| "py_len (PDict d) = Inr (length (remdups (map fst d)))"
| "py_len v = Inl (TypeError ''object has no len()'')"

text \<open>\<open>1 - v\<close>: defined on numbers (\<open>bool\<close> is a subclass of \<open>int\<close>), a \<open>TypeError\<close> otherwise.\<close>

fun one_minus :: "pyval \<Rightarrow> exn + pyval" where
  "one_minus (PInt n) = Inr (PInt (1 - n))"
| "one_minus (PFloat x) = Inr (PFloat (1 - x))"
| "one_minus (PBool b) = Inr (PInt (1 - (if b then 1 else 0)))"
| "one_minus v = Inl (TypeError ''unsupported operand type(s) for -'')"

text \<open>\<open>isinstance(x, (int, float))\<close>.\<close>

fun is_number :: "pyval \<Rightarrow> bool" where
  "is_number (PInt n) = True"
| "is_number (PFloat x) = True"
| "is_number (PBool b) = True"
| "is_number v = False"

section \<open>The provider registry (\<open>core/registry.py\<close>)\<close>

text \<open>
  \<open>ProviderRegistry\<close> owns one dictionary from names to provider classes.  Python
  dictionaries keep insertion order and \<open>d[k] = v\<close> on a present key replaces the value
  in place, so the dictionary is an association list updated by \<open>dict_set\<close>.  The
  provider classes are a type parameter.
\<close>

fun dict_set :: "('k \<times> 'v) list \<Rightarrow> 'k \<Rightarrow> 'v \<Rightarrow> ('k \<times> 'v) list" where
  "dict_set [] k v = [(k, v)]"
| "dict_set ((k', v') # d) k v =
     (if k' = k then (k', v) # d else (k', v') # dict_set d k v)"

record 'c ProviderRegistry =
  providers :: "(string \<times> 'c) list"

definition empty_registry :: "'c ProviderRegistry" where
  "empty_registry = \<lparr>providers = []\<rparr>"

text \<open>\<open>registry.register(name)(cls)\<close>: the decorator stores the class under the name.\<close>

definition register :: "'c ProviderRegistry \<Rightarrow> string \<Rightarrow> 'c \<Rightarrow> 'c ProviderRegistry" where
  "register reg name cls = reg\<lparr>providers := dict_set (providers reg) name cls\<rparr>"

definition registry_get :: "'c ProviderRegistry \<Rightarrow> string \<Rightarrow> exn + 'c" where
  "registry_get reg name =
     (case map_of (providers reg) name of
        None \<Rightarrow> Inl (KeyError (''Provider '' @ [CHR 0x27] @ name @ [CHR 0x27] @ '' not found''))
      | Some cls \<Rightarrow> Inr cls)"


definition list_providers :: "'c ProviderRegistry \<Rightarrow> string list" where
  "list_providers reg = map fst (providers reg)"

text \<open>A sequence of registrations, applied from left to right.\<close>

fun register_all :: "'c ProviderRegistry \<Rightarrow> (string \<times> 'c) list \<Rightarrow> 'c ProviderRegistry" where
  "register_all reg [] = reg"
| "register_all reg ((name, cls) # calls) = register_all (register reg name cls) calls"

text \<open>
  The names of a call sequence in the order of their first registration, and the class
  registered last under a name: what the claims about the registry compare against.
\<close>

fun first_occurrences :: "'a list \<Rightarrow> 'a list \<Rightarrow> 'a list" where
  "first_occurrences seen [] = []"
| "first_occurrences seen (x # xs) =
     (if x \<in> set seen then first_occurrences seen xs
      else x # first_occurrences (seen @ [x]) xs)"

definition last_registered :: "(string \<times> 'c) list \<Rightarrow> string \<Rightarrow> 'c option" where
  "last_registered calls name = map_of (rev calls) name"

section \<open>Provider objects and the calls issued to them\<close>

text \<open>
  The wrapped SDK objects are parameters of the model: each native method is a function
  from its arguments to an exception or a returned value.  Every adapter method returns
  its own outcome together with the list of native calls it issued, in order, so that
  "no provider call" and "exactly one provider call" are statements about that list.
\<close>

datatype native_call =
    IndexUpsert "(pyval \<times> pyval \<times> pyval) list"
  | IndexQuery pyval int
  | ClientCreateIndex string int string
  | ClientDeleteIndex string
  | CollectionAdd "pyval list" "pyval list" "pyval list"
  | CollectionQuery "pyval list" int "string list"
  | ClientDeleteCollection string
  | NativePersistentClient string

type_synonym 'a outcome = "(exn + 'a) \<times> native_call list"

record native_index =
  native_upsert :: "(pyval \<times> pyval \<times> pyval) list \<Rightarrow> exn + unit"
  native_query :: "pyval \<Rightarrow> int \<Rightarrow> exn + pyval"

record native_pinecone =
  native_create_index :: "string \<Rightarrow> int \<Rightarrow> string \<Rightarrow> exn + unit"
  native_delete_index :: "string \<Rightarrow> exn + unit"

record native_collection =
  native_add :: "pyval list \<Rightarrow> pyval list \<Rightarrow> pyval list \<Rightarrow> exn + unit"
  native_collection_query :: "pyval list \<Rightarrow> int \<Rightarrow> string list \<Rightarrow> exn + pyval"

record native_chroma =
  native_delete_collection :: "string \<Rightarrow> exn + unit"

section \<open>Validation shared by both adapters\<close>

text \<open>
  The body of the \<open>try\<close> block of \<open>upsert\<close> up to the point where the three fields are
  read; both adapters contain the same checks in the same order.
\<close>

definition check_vector :: "nat \<Rightarrow> pyval \<Rightarrow> exn + (pyval \<times> pyval \<times> pyval)" where
  "check_vector i vector =
     (case vector of
        PDict d \<Rightarrow>
          (case map_of d ''id'' of
             None \<Rightarrow> Inl (ValidationError
               (''Vector at index '' @ str_nat i @ '' missing '' @ [CHR 0x27] @ ''id'' @ [CHR 0x27] @ '' field''))
           | Some vid \<Rightarrow>
          (case map_of d ''values'' of
             None \<Rightarrow> Inl (ValidationError
               (''Vector at index '' @ str_nat i @ '' missing '' @ [CHR 0x27] @ ''values'' @ [CHR 0x27] @ '' field''))
           | Some vals \<Rightarrow>
          (case map_of d ''metadata'' of
             None \<Rightarrow> Inl (ValidationError
               (''Vector at index '' @ str_nat i @ '' missing '' @ [CHR 0x27] @ ''metadata'' @ [CHR 0x27] @ '' field''))
           | Some meta \<Rightarrow>
          (case vals of
             PList xs \<Rightarrow> Inr (vid, vals, meta)
           | _ \<Rightarrow> Inl (ValidationError
               (''Vector values at index '' @ str_nat i @ '' must be a list''))))))
      | _ \<Rightarrow> Inl (ValidationError (''Vector at index '' @ str_nat i @ '' must be a dictionary'')))"

text \<open>The \<open>except Exception as e\<close> clause around the loop body.\<close>

definition format_error :: "nat \<Rightarrow> exn \<Rightarrow> exn" where
  "format_error i e =
     ValidationError (''Error formatting vector at index '' @ str_nat i @ '': '' @ str_exc e)"

text \<open>The four checks that open \<open>query\<close>, in the source's order.\<close>

definition validate_query :: "pyval \<Rightarrow> int \<Rightarrow> exn option" where
  "validate_query vector top_k =
     (case vector of
        PList xs \<Rightarrow>
          (if xs = [] then Some (ValidationError ''Query vector cannot be empty'')
           else if \<not> list_all is_number xs
             then Some (ValidationError ''Query vector must contain only numbers'')
           else if top_k < 1 then Some (ValidationError ''top_k must be greater than 0'')
           else None)
      | _ \<Rightarrow> Some (ValidationError ''Query vector must be a list''))"

section \<open>The Pinecone adapter (\<open>providers/pinecone/adapter.py\<close>)\<close>

text \<open>The loop of \<open>PineconeIndex.upsert\<close>: \<open>i\<close> is the index that \<open>enumerate\<close> yields.\<close>

fun format_vectors ::
  "nat \<Rightarrow> pyval list \<Rightarrow> (pyval \<times> pyval \<times> pyval) list \<Rightarrow> exn + (pyval \<times> pyval \<times> pyval) list" where
  "format_vectors i [] formatted_vectors = Inr formatted_vectors"
| "format_vectors i (vector # rest) formatted_vectors =
     (case check_vector i vector of
        Inl e \<Rightarrow> Inl (format_error i e)
      | Inr t \<Rightarrow> format_vectors (Suc i) rest (formatted_vectors @ [t]))"

definition PineconeIndex_upsert :: "native_index \<Rightarrow> pyval list \<Rightarrow> unit outcome" where
  "PineconeIndex_upsert index vectors =
     (if vectors = [] then (Inl (ValidationError ''Vectors list cannot be empty''), [])
      else
        (case format_vectors 0 vectors [] of
           Inl e \<Rightarrow> (Inl e, [])
         | Inr formatted_vectors \<Rightarrow>
             ((case native_upsert index formatted_vectors of
                 Inl e \<Rightarrow> Inl (VectorOperationError (''Failed to upsert vectors: '' @ str_exc e))
               | Inr u \<Rightarrow> Inr ()),
              [IndexUpsert formatted_vectors])))"

definition PineconeIndex_query :: "native_index \<Rightarrow> pyval \<Rightarrow> int \<Rightarrow> pyval outcome" where
  "PineconeIndex_query index vector top_k =
     (case validate_query vector top_k of
        Some e \<Rightarrow> (Inl e, [])
      | None \<Rightarrow>
          ((case ebind (native_query index vector top_k) (\<lambda>results. getitem_key results ''matches'') of
              Inl e \<Rightarrow> Inl (VectorOperationError (''Failed to query vectors: '' @ str_exc e))
            | Inr matches \<Rightarrow> Inr matches),
           [IndexQuery vector top_k]))"

definition valid_metrics :: "string list" where
  "valid_metrics = [''cosine'', ''euclidean'', ''dotproduct'']"

definition Pinecone_create_index ::
  "native_pinecone \<Rightarrow> string \<Rightarrow> int \<Rightarrow> string \<Rightarrow> unit outcome" where
  "Pinecone_create_index client name dimension metric =
     (if name = [] then (Inl (ValidationError ''Index name cannot be empty''), [])
      else if dimension < 1 then (Inl (ValidationError ''Dimension must be greater than 0''), [])
      else if metric \<notin> set valid_metrics
        then (Inl (ValidationError (''Metric must be one of: '' @ join '', '' valid_metrics)), [])
      else
        ((case native_create_index client name dimension metric of
            Inl e \<Rightarrow> Inl (ProviderError (''Failed to create index: '' @ str_exc e))
          | Inr u \<Rightarrow> Inr ()),
         [ClientCreateIndex name dimension metric]))"

definition Pinecone_delete_index :: "native_pinecone \<Rightarrow> string \<Rightarrow> unit outcome" where
  "Pinecone_delete_index client name =
     (if name = [] then (Inl (ValidationError ''Index name cannot be empty''), [])
      else
        ((case native_delete_index client name of
            Inl e \<Rightarrow> Inl (ProviderError (''Failed to delete index: '' @ str_exc e))
          | Inr u \<Rightarrow> Inr ()),
         [ClientDeleteIndex name]))"

section \<open>The Chroma adapter (\<open>providers/chroma/adapter.py\<close>)\<close>

text \<open>The loop of \<open>ChromaCollection.upsert\<close>, with its three accumulators.\<close>

fun collect_columns ::
  "nat \<Rightarrow> pyval list \<Rightarrow> pyval list \<times> pyval list \<times> pyval list \<Rightarrow>
   exn + (pyval list \<times> pyval list \<times> pyval list)" where
  "collect_columns i [] cols = Inr cols"
| "collect_columns i (vector # rest) (ids, embeddings, metadatas) =
     (case check_vector i vector of
        Inl e \<Rightarrow> Inl (format_error i e)
      | Inr (vid, vals, meta) \<Rightarrow>
          collect_columns (Suc i) rest (ids @ [vid], embeddings @ [vals], metadatas @ [meta]))"

definition ChromaCollection_upsert :: "native_collection \<Rightarrow> pyval list \<Rightarrow> unit outcome" where
  "ChromaCollection_upsert collection vectors =
     (if vectors = [] then (Inl (ValidationError ''Vectors list cannot be empty''), [])
      else
        (case collect_columns 0 vectors ([], [], []) of
           Inl e \<Rightarrow> (Inl e, [])
         | Inr (ids, embeddings, metadatas) \<Rightarrow>
             ((case native_add collection ids embeddings metadatas of
                 Inl e \<Rightarrow> Inl (VectorOperationError (''Failed to upsert vectors: '' @ str_exc e))
               | Inr u \<Rightarrow> Inr ()),
              [CollectionAdd ids embeddings metadatas])))"

text \<open>
  One iteration of the result loop of \<open>ChromaCollection.query\<close>: the dictionary literal
  evaluates its three values from top to bottom.
\<close>

definition format_result :: "pyval \<Rightarrow> nat \<Rightarrow> exn + pyval" where
  "format_result results i =
     ebind (getitem_key results ''ids'') (\<lambda>ids.
     ebind (getitem_idx ids 0) (\<lambda>ids0.
     ebind (getitem_idx ids0 i) (\<lambda>rid.
     ebind (getitem_key results ''metadatas'') (\<lambda>metadatas.
     ebind (getitem_idx metadatas 0) (\<lambda>metadatas0.
     ebind (getitem_idx metadatas0 i) (\<lambda>meta.
     ebind (getitem_key results ''distances'') (\<lambda>distances.
     ebind (getitem_idx distances 0) (\<lambda>distances0.
     ebind (getitem_idx distances0 i) (\<lambda>distance.
     ebind (one_minus distance) (\<lambda>score.
     Inr (PDict [(''id'', rid), (''metadata'', meta), (''score'', score)])))))))))))"

fun format_results :: "pyval \<Rightarrow> nat list \<Rightarrow> pyval list \<Rightarrow> exn + pyval list" where
  "format_results results [] formatted_results = Inr formatted_results"
| "format_results results (i # rest) formatted_results =
     (case format_result results i of
        Inl e \<Rightarrow> Inl e
      | Inr r \<Rightarrow> format_results results rest (formatted_results @ [r]))"

definition ChromaCollection_query :: "native_collection \<Rightarrow> pyval \<Rightarrow> int \<Rightarrow> pyval outcome" where
  "ChromaCollection_query collection vector top_k =
     (case validate_query vector top_k of
        Some e \<Rightarrow> (Inl e, [])
      | None \<Rightarrow>
          ((case
              ebind (native_collection_query collection [vector] top_k [''metadatas'', ''distances''])
                (\<lambda>results.
              ebind (getitem_key results ''ids'') (\<lambda>ids.
              ebind (getitem_idx ids 0) (\<lambda>ids0.
              ebind (py_len ids0) (\<lambda>n.
              format_results results [0..<n] []))))
            of
              Inl e \<Rightarrow> Inl (VectorOperationError (''Failed to query vectors: '' @ str_exc e))
            | Inr formatted_results \<Rightarrow> Inr (PList formatted_results)),
           [CollectionQuery [vector] top_k [''metadatas'', ''distances'']]))"

definition ChromaClient_delete_collection :: "native_chroma \<Rightarrow> string \<Rightarrow> unit outcome" where
  "ChromaClient_delete_collection client name =
     (if name = [] then (Inl (ValidationError ''Collection name cannot be empty''), [])
      else
        ((case native_delete_collection client name of
            Inl (ValueError m) \<Rightarrow> Inr ()
          | Inl e \<Rightarrow> Inl (ProviderError (''Failed to delete collection: '' @ str_exc e))
          | Inr u \<Rightarrow> Inr ()),
         [ClientDeleteCollection name]))"

subsection \<open>Initialisation (\<open>providers/chroma/config.py\<close>, \<open>Chroma.init\<close>, \<open>Chroma.PersistentClient\<close>)\<close>






section \<open>Vocabulary of the specification\<close>

text \<open>
  A record is malformed, in the specification's words, when it is not a dictionary, or
  lacks one of the fields \<open>id\<close>, \<open>values\<close>, \<open>metadata\<close>, or its \<open>values\<close> field is not a list.
\<close>

definition is_dict :: "pyval \<Rightarrow> bool" where
  "is_dict v = (case v of PDict d \<Rightarrow> True | _ \<Rightarrow> False)"

definition is_list :: "pyval \<Rightarrow> bool" where
  "is_list v = (case v of PList xs \<Rightarrow> True | _ \<Rightarrow> False)"

definition has_field :: "pyval \<Rightarrow> string \<Rightarrow> bool" where
  "has_field v k = (case v of PDict d \<Rightarrow> map_of d k \<noteq> None | _ \<Rightarrow> False)"

definition malformed_record :: "pyval \<Rightarrow> bool" where
  "malformed_record v \<longleftrightarrow>
     \<not> is_dict v \<or> \<not> has_field v ''id'' \<or> \<not> has_field v ''values'' \<or> \<not> has_field v ''metadata''
     \<or> (case getitem_key v ''values'' of Inr vals \<Rightarrow> \<not> is_list vals | Inl e \<Rightarrow> True)"

text \<open>The tuple \<open>(v["id"], v["values"], v["metadata"])\<close> of a record, read by subscripting.\<close>

definition tuple_of_record :: "pyval \<Rightarrow> pyval \<times> pyval \<times> pyval \<Rightarrow> bool" where
  "tuple_of_record v t \<longleftrightarrow>
     getitem_key v ''id'' = Inr (fst t) \<and> getitem_key v ''values'' = Inr (fst (snd t))
     \<and> getitem_key v ''metadata'' = Inr (snd (snd t))"

text \<open>
  A query is valid when its vector is a non-empty list of numbers and \<open>top_k\<close> is at
  least one.
\<close>

definition valid_query :: "pyval \<Rightarrow> int \<Rightarrow> bool" where
  "valid_query vector top_k \<longleftrightarrow>
     (case vector of PList xs \<Rightarrow> xs \<noteq> [] \<and> list_all is_number xs | _ \<Rightarrow> False) \<and> 1 \<le> top_k"

text \<open>
  The canonical result record for a Chroma match, and the shape of a native Chroma
  response to a single query embedding: one inner list per column, the three inner lists
  of equal length, the distances floating-point numbers.
\<close>

definition canonical_result :: "pyval \<times> pyval \<times> real \<Rightarrow> pyval" where
  "canonical_result m =
     (case m of (rid, meta, distance) \<Rightarrow>
        PDict [(''id'', rid), (''metadata'', meta), (''score'', PFloat (1 - distance))])"

definition chroma_response :: "pyval \<Rightarrow> pyval list \<Rightarrow> pyval list \<Rightarrow> real list \<Rightarrow> bool" where
  "chroma_response results ids metadatas distances \<longleftrightarrow>
     getitem_key results ''ids'' = Inr (PList [PList ids])
     \<and> getitem_key results ''metadatas'' = Inr (PList [PList metadatas])
     \<and> getitem_key results ''distances'' = Inr (PList [PList (map PFloat distances)])
     \<and> length metadatas = length ids \<and> length distances = length ids"

section \<open>Concrete inputs\<close>


definition demo_calls :: "(string \<times> nat) list" where
  "demo_calls = [(''pinecone'', 1), (''chroma'', 2), (''pinecone'', 3)]"

definition demo_index :: native_index where
  "demo_index = \<lparr>native_upsert = (\<lambda>ts. Inr ()),
                  native_query = (\<lambda>v k. Inr (PDict [(''matches'', PList [])]))\<rparr>"

definition demo_collection :: native_collection where
  "demo_collection = \<lparr>native_add = (\<lambda>ids es ms. Inr ()),
                       native_collection_query = (\<lambda>qs k inc. Inr (PDict []))\<rparr>"

definition test_vectors :: "pyval list" where
  "test_vectors =
     [PDict [(''id'', PStr ''1''), (''values'', PList [PFloat 0.1, PFloat 0.2, PFloat 0.3]),
             (''metadata'', PDict [(''text'', PStr ''test1'')])],
      PDict [(''id'', PStr ''2''), (''values'', PList [PFloat 0.4, PFloat 0.5, PFloat 0.6]),
             (''metadata'', PDict [(''text'', PStr ''test2'')])]]"

definition bad_vectors :: "pyval list" where
  "bad_vectors =
     [PDict [(''id'', PStr ''1''), (''values'', PList [PFloat 0.1]), (''metadata'', PDict [])],
      PDict [(''id'', PStr ''2''), (''metadata'', PDict [])]]"

definition demo_pinecone :: native_pinecone where
  "demo_pinecone = \<lparr>native_create_index = (\<lambda>name dimension metric. Inr ()),
                     native_delete_index = (\<lambda>name. Inl (OtherException ''Index not found''))\<rparr>"

definition demo_chroma :: native_chroma where
  "demo_chroma = \<lparr>native_delete_collection = (\<lambda>name. Inl (ValueError ''Collection not found''))\<rparr>"

definition test_query_vector :: pyval where
  "test_query_vector = PList [PFloat 0.1, PFloat 0.2, PFloat 0.3]"

text \<open>
  The mocked collection of \<open>tests/test_vector_clients.py\<close>, and an index whose native
  query returns two matches whatever \<open>top_k\<close> is.
\<close>

definition mock_collection :: native_collection where
  "mock_collection =
     \<lparr>native_add = (\<lambda>ids es ms. Inr ()),
      native_collection_query = (\<lambda>qs k inc. Inr (PDict
        [(''ids'', PList [PList [PStr ''1'']]),
         (''metadatas'', PList [PList [PDict [(''text'', PStr ''test1'')]]]),
         (''distances'', PList [PList [PFloat 0.1]])]))\<rparr>"

definition greedy_index :: native_index where
  "greedy_index =
     \<lparr>native_upsert = (\<lambda>ts. Inr ()),
      native_query = (\<lambda>v k. Inr (PDict [(''matches'', PList
        [PDict [(''id'', PStr ''1''), (''score'', PFloat 0.9), (''metadata'', PDict [])],
         PDict [(''id'', PStr ''2''), (''score'', PFloat 0.8), (''metadata'', PDict [])]])]))\<rparr>"



section \<open>The registry: overwriting, order and lookup\<close>

lemma map_fst_dict_set:
  "map fst (dict_set d k v) = (if k \<in> fst ` set d then map fst d else map fst d @ [k])"
  by (induction d k v rule: dict_set.induct) auto

lemma map_of_dict_set: "map_of (dict_set d k v) = (map_of d)(k \<mapsto> v)"
  by (induction d k v rule: dict_set.induct) auto

lemma dict_set_twice: "dict_set (dict_set d k v) k w = dict_set d k w"
  by (induction d k v rule: dict_set.induct) auto

lemma list_providers_register:
  "list_providers (register reg name cls) =
     (if name \<in> set (list_providers reg) then list_providers reg else list_providers reg @ [name])"
  by (simp add: list_providers_def register_def map_fst_dict_set)

lemma list_providers_register_all:
  "list_providers (register_all reg calls) =
     list_providers reg @ first_occurrences (list_providers reg) (map fst calls)"
proof (induction calls arbitrary: reg)
  case Nil
  then show ?case by simp
next
  case (Cons call calls)
  obtain name cls where call: "call = (name, cls)" by (cases call)
  show ?case
    by (simp add: call Cons.IH list_providers_register)
qed

lemma distinct_first_occurrences:
  "distinct seen \<Longrightarrow> distinct (seen @ first_occurrences seen xs)"
proof (induction xs arbitrary: seen)
  case Nil
  then show ?case by simp
next
  case (Cons x xs)
  show ?case
  proof (cases "x \<in> set seen")
    case True
    then show ?thesis using Cons by simp
  next
    case False
    then have "distinct (seen @ [x])" using Cons.prems by simp
    from Cons.IH [OF this] False show ?thesis by simp
  qed
qed

lemma set_first_occurrences:
  "set (first_occurrences seen xs) = set xs - set seen"
  by (induction xs arbitrary: seen) auto

lemma first_occurrences_distinct:
  "distinct xs \<Longrightarrow> set xs \<inter> set seen = {} \<Longrightarrow> first_occurrences seen xs = xs"
  by (induction xs arbitrary: seen) auto

lemma map_of_register:
  "map_of (providers (register reg name cls)) = (map_of (providers reg))(name \<mapsto> cls)"
  by (simp add: register_def map_of_dict_set)

lemma map_of_register_all:
  "map_of (providers (register_all reg calls)) name =
     (case map_of (rev calls) name of
        None \<Rightarrow> map_of (providers reg) name
      | Some cls \<Rightarrow> Some cls)"
proof (induction calls arbitrary: reg)
  case Nil
  then show ?case by simp
next
  case (Cons call calls)
  obtain name' cls' where call: "call = (name', cls')" by (cases call)
  show ?case
    by (simp add: call Cons.IH map_of_register map_add_def split: option.splits)
qed









lemma register_twice: "register (register reg name c1) name c2 = register reg name c2"
  by (simp add: register_def dict_set_twice)

lemma registry_get_register: "registry_get (register reg name cls) name = Inr cls"
  by (simp add: registry_get_def map_of_register)

lemma list_providers_empty: "list_providers empty_registry = []"
  by (simp add: list_providers_def empty_registry_def)

lemma list_providers_from_empty:
  "list_providers (register_all empty_registry calls) = first_occurrences [] (map fst calls)"
  by (simp add: list_providers_register_all list_providers_empty)

lemma distinct_from_empty: "distinct (list_providers (register_all empty_registry calls))"
  using distinct_first_occurrences [of "[]" "map fst calls"]
  by (simp add: list_providers_from_empty)

lemma registry_get_from_empty:
  "registry_get (register_all empty_registry calls) name =
     (case last_registered calls name of
        None \<Rightarrow> Inl (KeyError (''Provider '' @ [CHR 0x27] @ name @ [CHR 0x27] @ '' not found''))
      | Some cls \<Rightarrow> Inr cls)"
  by (simp add: registry_get_def map_of_register_all last_registered_def empty_registry_def
      split: option.splits)

lemma count_distinct: "distinct xs \<Longrightarrow> x \<in> set xs \<Longrightarrow> length (filter (\<lambda>y. y = x) xs) = 1"
  by (induction xs) (auto simp: filter_empty_conv)

text \<open>
  Claim C8.  Registering a second class under a name that is already registered leaves
  the registry as if only the second registration had happened, and a later
  \<open>registry.get\<close> returns the second class.  For a registry built from empty by any
  sequence of \<open>register\<close> calls, \<open>list_providers\<close> returns the names in the order of their
  first registration (the call sequence itself when its names are distinct), every
  registered name occurs exactly once, and \<open>registry.get\<close> returns the class registered
  last under the name.
\<close>

theorem register_overwrites_in_registration_order:
  "register (register reg name c1) name c2 = register reg name c2
   \<and> registry_get (register (register reg name c1) name c2) name = Inr c2
   \<and> list_providers (register_all empty_registry calls) = first_occurrences [] (map fst calls)
   \<and> (distinct (map fst calls) \<longrightarrow>
        list_providers (register_all empty_registry calls) = map fst calls)
   \<and> (\<forall>n \<in> set (map fst calls).
        length (filter (\<lambda>m. m = n) (list_providers (register_all empty_registry calls))) = 1
        \<and> (\<exists>cls. last_registered calls n = Some cls
              \<and> registry_get (register_all empty_registry calls) n = Inr cls))"
proof (intro conjI impI ballI)
  show "register (register reg name c1) name c2 = register reg name c2"
    by (rule register_twice)
  show "registry_get (register (register reg name c1) name c2) name = Inr c2"
    by (rule registry_get_register)
  show "list_providers (register_all empty_registry calls) = first_occurrences [] (map fst calls)"
    by (rule list_providers_from_empty)
next
  assume "distinct (map fst calls)"
  then show "list_providers (register_all empty_registry calls) = map fst calls"
    by (simp add: list_providers_from_empty first_occurrences_distinct)
next
  fix n assume n: "n \<in> set (map fst calls)"
  have "n \<in> set (list_providers (register_all empty_registry calls))"
    using n by (simp add: list_providers_from_empty set_first_occurrences)
  then show "length (filter (\<lambda>m. m = n) (list_providers (register_all empty_registry calls))) = 1"
    by (rule count_distinct [OF distinct_from_empty])
next
  fix n assume n: "n \<in> set (map fst calls)"
  then have "n \<in> fst ` set (rev calls)" by simp
  then obtain cls where "map_of (rev calls) n = Some cls"
    by (cases "map_of (rev calls) n") (auto simp: map_of_eq_None_iff simp del: set_rev)
  then show "\<exists>cls. last_registered calls n = Some cls
      \<and> registry_get (register_all empty_registry calls) n = Inr cls"
    by (simp add: registry_get_from_empty last_registered_def)
qed

theorem register_overwrites_in_registration_order_witness:
  "list_providers (register_all empty_registry demo_calls) = [''pinecone'', ''chroma'']
   \<and> registry_get (register_all empty_registry demo_calls) ''pinecone'' = Inr 3
   \<and> length (filter (\<lambda>m. m = ''pinecone'') (list_providers (register_all empty_registry demo_calls))) = 1
   \<and> list_providers (register_all empty_registry (take 2 demo_calls)) = [''pinecone'', ''chroma'']"
proof -
  note a = register_overwrites_in_registration_order [of empty_registry "''pinecone''" 1 3 demo_calls]
  note b = register_overwrites_in_registration_order [of empty_registry "''pinecone''" 1 3 "take 2 demo_calls"]
  have m: "''pinecone'' \<in> set (map fst demo_calls)" by (simp add: demo_calls_def)
  have l: "last_registered demo_calls ''pinecone'' = Some 3"
    by (simp add: last_registered_def demo_calls_def)
  have f: "first_occurrences [] (map fst demo_calls) = [''pinecone'', ''chroma'']"
    by (simp add: demo_calls_def)
  have d: "distinct (map fst (take 2 demo_calls))" "map fst (take 2 demo_calls) = [''pinecone'', ''chroma'']"
    by (simp_all add: demo_calls_def)
  show ?thesis
    using a b m l f d by auto
qed

section \<open>Upsert: validation before the provider call\<close>

lemma check_vector_malformed:
  "malformed_record v \<Longrightarrow> \<exists>msg. check_vector i v = Inl (ValidationError msg)"
  by (auto simp: malformed_record_def check_vector_def is_dict_def is_list_def has_field_def
      split: pyval.splits option.splits)

lemma check_vector_well_formed:
  "\<not> malformed_record v \<Longrightarrow> \<exists>t. check_vector i v = Inr t \<and> tuple_of_record v t"
  by (auto simp: malformed_record_def check_vector_def is_dict_def is_list_def has_field_def
      tuple_of_record_def split: pyval.splits option.splits)

lemma format_vectors_acc:
  "format_vectors k vs acc =
     (case format_vectors k vs [] of Inl e \<Rightarrow> Inl e | Inr ts \<Rightarrow> Inr (acc @ ts))"
proof (induction vs arbitrary: k acc)
  case Nil
  then show ?case by simp
next
  case (Cons v vs)
  show ?case
  proof (cases "check_vector k v")
    case (Inl e)
    then show ?thesis by simp
  next
    case (Inr t)
    have "format_vectors k (v # vs) acc = format_vectors (Suc k) vs (acc @ [t])"
      by (simp add: Inr)
    also have "\<dots> = (case format_vectors (Suc k) vs [] of Inl e \<Rightarrow> Inl e | Inr ts \<Rightarrow> Inr (acc @ t # ts))"
      by (subst Cons.IH) (simp split: sum.splits)
    also have "\<dots> = (case format_vectors k (v # vs) [] of Inl e \<Rightarrow> Inl e | Inr ts \<Rightarrow> Inr (acc @ ts))"
      by (simp add: Inr Cons.IH [of "Suc k" "[t]"] split: sum.splits)
    finally show ?thesis .
  qed
qed

lemma collect_columns_format_vectors:
  "collect_columns k vs (ids, es, ms) =
     (case format_vectors k vs [] of
        Inl e \<Rightarrow> Inl e
      | Inr ts \<Rightarrow> Inr (ids @ map fst ts, es @ map (\<lambda>t. fst (snd t)) ts, ms @ map (\<lambda>t. snd (snd t)) ts))"
proof (induction vs arbitrary: k ids es ms)
  case Nil
  then show ?case by simp
next
  case (Cons v vs)
  show ?case
  proof (cases "check_vector k v")
    case (Inl e)
    then show ?thesis by simp
  next
    case (Inr t)
    obtain a b c where t: "t = (a, b, c)" by (cases t)
    show ?thesis
      by (simp add: Inr t Cons.IH format_vectors_acc [of "Suc k" vs "[(a, b, c)]"] split: sum.splits)
  qed
qed

lemma format_vectors_well_formed:
  "\<forall>v \<in> set vs. \<not> malformed_record v \<Longrightarrow>
   \<exists>ts. format_vectors k vs [] = Inr ts \<and> list_all2 tuple_of_record vs ts"
proof (induction vs arbitrary: k)
  case Nil
  then show ?case by simp
next
  case (Cons v vs)
  from Cons.prems obtain t where t: "check_vector k v = Inr t" "tuple_of_record v t"
    using check_vector_well_formed [of v k] by auto
  from Cons.prems Cons.IH [of "Suc k"] obtain ts where
    ts: "format_vectors (Suc k) vs [] = Inr ts" "list_all2 tuple_of_record vs ts" by auto
  have "format_vectors k (v # vs) [] = Inr (t # ts)"
    using t ts by (simp add: format_vectors_acc [of "Suc k" vs "[t]"])
  with t ts show ?case by simp
qed

lemma format_vectors_first_malformed:
  "i < length vs \<Longrightarrow> malformed_record (vs ! i) \<Longrightarrow> \<forall>j<i. \<not> malformed_record (vs ! j) \<Longrightarrow>
   \<exists>msg. check_vector (k + i) (vs ! i) = Inl (ValidationError msg)
     \<and> format_vectors k vs acc = Inl (format_error (k + i) (ValidationError msg))"
proof (induction vs arbitrary: k i acc)
  case Nil
  then show ?case by simp
next
  case (Cons v vs)
  show ?case
  proof (cases i)
    case 0
    with Cons.prems obtain msg where "check_vector k v = Inl (ValidationError msg)"
      using check_vector_malformed [of v k] by auto
    with 0 show ?thesis by simp
  next
    case (Suc i')
    from Cons.prems Suc have "\<not> malformed_record v" by auto
    then obtain t where t: "check_vector k v = Inr t"
      using check_vector_well_formed [of v k] by auto
    have "i' < length vs" "malformed_record (vs ! i')" "\<forall>j<i'. \<not> malformed_record (vs ! j)"
      using Cons.prems Suc by auto
    from Cons.IH [OF this, of "Suc k" "acc @ [t]"] show ?thesis
      by (simp add: Suc t)
  qed
qed

lemma first_malformed_exists:
  assumes "\<exists>v \<in> set vs. malformed_record v"
  shows "\<exists>i. i < length vs \<and> malformed_record (vs ! i) \<and> (\<forall>j<i. \<not> malformed_record (vs ! j))"
proof -
  let ?P = "\<lambda>i. i < length vs \<and> malformed_record (vs ! i)"
  from assms obtain i where "?P i" by (auto simp: in_set_conv_nth)
  then have "?P (LEAST i. ?P i)" by (rule LeastI)
  moreover have "\<forall>j<(LEAST i. ?P i). \<not> malformed_record (vs ! j)"
  proof (intro allI impI)
    fix j assume j: "j < (LEAST i. ?P i)"
    then have "\<not> ?P j" by (rule not_less_Least)
    moreover from j \<open>?P (LEAST i. ?P i)\<close> have "j < length vs" by simp
    ultimately show "\<not> malformed_record (vs ! j)" by simp
  qed
  ultimately show ?thesis by blast
qed

lemma upsert_empty:
  "PineconeIndex_upsert index [] = (Inl (ValidationError ''Vectors list cannot be empty''), [])"
  "ChromaCollection_upsert collection [] = (Inl (ValidationError ''Vectors list cannot be empty''), [])"
  by (simp_all add: PineconeIndex_upsert_def ChromaCollection_upsert_def)

lemma upsert_first_malformed:
  assumes "i < length vectors" "malformed_record (vectors ! i)"
    "\<forall>j<i. \<not> malformed_record (vectors ! j)"
  shows "\<exists>msg. check_vector i (vectors ! i) = Inl (ValidationError msg)
     \<and> PineconeIndex_upsert index vectors =
         (Inl (ValidationError (''Error formatting vector at index '' @ str_nat i @ '': '' @ msg)), [])
     \<and> ChromaCollection_upsert collection vectors =
         (Inl (ValidationError (''Error formatting vector at index '' @ str_nat i @ '': '' @ msg)), [])"
proof -
  from format_vectors_first_malformed [OF assms, of 0 "[]"] obtain msg where
    msg: "check_vector i (vectors ! i) = Inl (ValidationError msg)"
      "format_vectors 0 vectors [] = Inl (format_error i (ValidationError msg))" by auto
  from assms(1) have ne: "vectors \<noteq> []" by auto
  have "PineconeIndex_upsert index vectors = (Inl (format_error i (ValidationError msg)), [])"
    using ne msg(2) by (simp add: PineconeIndex_upsert_def)
  moreover have "ChromaCollection_upsert collection vectors = (Inl (format_error i (ValidationError msg)), [])"
    using ne msg(2) by (simp add: ChromaCollection_upsert_def collect_columns_format_vectors)
  ultimately show ?thesis using msg(1) by (auto simp: format_error_def)
qed

lemma upsert_well_formed:
  assumes "vectors \<noteq> []" "\<forall>v \<in> set vectors. \<not> malformed_record v"
  shows "\<exists>ts. list_all2 tuple_of_record vectors ts
     \<and> snd (PineconeIndex_upsert index vectors) = [IndexUpsert ts]
     \<and> snd (ChromaCollection_upsert collection vectors) =
          [CollectionAdd (map fst ts) (map (\<lambda>t. fst (snd t)) ts) (map (\<lambda>t. snd (snd t)) ts)]"
proof -
  from format_vectors_well_formed [OF assms(2), of 0] obtain ts where
    ts: "format_vectors 0 vectors [] = Inr ts" "list_all2 tuple_of_record vectors ts" by auto
  have "snd (PineconeIndex_upsert index vectors) = [IndexUpsert ts]"
    using assms(1) ts(1) by (simp add: PineconeIndex_upsert_def)
  moreover have "snd (ChromaCollection_upsert collection vectors) =
          [CollectionAdd (map fst ts) (map (\<lambda>t. fst (snd t)) ts) (map (\<lambda>t. snd (snd t)) ts)]"
    using assms(1) ts(1) by (simp add: ChromaCollection_upsert_def collect_columns_format_vectors)
  ultimately show ?thesis using ts(2) by blast
qed

lemma upsert_calls_nonempty:
  assumes "snd (PineconeIndex_upsert index vectors) \<noteq> [] \<or> snd (ChromaCollection_upsert collection vectors) \<noteq> []"
  shows "vectors \<noteq> [] \<and> (\<forall>v \<in> set vectors. \<not> malformed_record v)"
proof (rule ccontr)
  assume "\<not> (vectors \<noteq> [] \<and> (\<forall>v \<in> set vectors. \<not> malformed_record v))"
  then consider "vectors = []" | "\<exists>v \<in> set vectors. malformed_record v" by blast
  then show False
  proof cases
    case 1
    with assms show False by (simp add: upsert_empty)
  next
    case 2
    from first_malformed_exists [OF 2] obtain i where
      "i < length vectors" "malformed_record (vectors ! i)" "\<forall>j<i. \<not> malformed_record (vectors ! j)"
      by blast
    from upsert_first_malformed [OF this, of index collection] assms show False by auto
  qed
qed

text \<open>
  Claim C1.  On both adapters: an empty batch is rejected with \<open>ValidationError\<close> and no
  provider call; a batch that contains a malformed record is rejected with a
  \<open>ValidationError\<close> whose message names the index of the first malformed record (and ends
  with the message of the check that this record fails), again with no provider call;
  and whenever a provider call is issued, the batch was non-empty and every record in it
  had passed validation.
\<close>

theorem upsert_rejects_malformed_batch:
  "(vectors = [] \<longrightarrow>
      PineconeIndex_upsert index vectors = (Inl (ValidationError ''Vectors list cannot be empty''), [])
      \<and> ChromaCollection_upsert collection vectors =
          (Inl (ValidationError ''Vectors list cannot be empty''), []))
   \<and> ((\<exists>v \<in> set vectors. malformed_record v) \<longrightarrow>
        (\<exists>i msg. i < length vectors \<and> malformed_record (vectors ! i)
           \<and> (\<forall>j<i. \<not> malformed_record (vectors ! j))
           \<and> check_vector i (vectors ! i) = Inl (ValidationError msg)
           \<and> PineconeIndex_upsert index vectors =
               (Inl (ValidationError (''Error formatting vector at index '' @ str_nat i @ '': '' @ msg)), [])
           \<and> ChromaCollection_upsert collection vectors =
               (Inl (ValidationError (''Error formatting vector at index '' @ str_nat i @ '': '' @ msg)), [])))
   \<and> (snd (PineconeIndex_upsert index vectors) \<noteq> []
        \<or> snd (ChromaCollection_upsert collection vectors) \<noteq> [] \<longrightarrow>
        vectors \<noteq> [] \<and> (\<forall>v \<in> set vectors. \<not> malformed_record v))"
proof (intro conjI impI)
  assume "vectors = []"
  then show "PineconeIndex_upsert index vectors = (Inl (ValidationError ''Vectors list cannot be empty''), [])"
    and "ChromaCollection_upsert collection vectors = (Inl (ValidationError ''Vectors list cannot be empty''), [])"
    by (simp_all add: upsert_empty)
next
  assume "\<exists>v \<in> set vectors. malformed_record v"
  from first_malformed_exists [OF this] obtain i where
    i: "i < length vectors" "malformed_record (vectors ! i)" "\<forall>j<i. \<not> malformed_record (vectors ! j)"
    by blast
  from upsert_first_malformed [OF i, of index collection] i
  show "\<exists>i msg. i < length vectors \<and> malformed_record (vectors ! i)
           \<and> (\<forall>j<i. \<not> malformed_record (vectors ! j))
           \<and> check_vector i (vectors ! i) = Inl (ValidationError msg)
           \<and> PineconeIndex_upsert index vectors =
               (Inl (ValidationError (''Error formatting vector at index '' @ str_nat i @ '': '' @ msg)), [])
           \<and> ChromaCollection_upsert collection vectors =
               (Inl (ValidationError (''Error formatting vector at index '' @ str_nat i @ '': '' @ msg)), [])"
    by blast
next
  assume a: "snd (PineconeIndex_upsert index vectors) \<noteq> []
        \<or> snd (ChromaCollection_upsert collection vectors) \<noteq> []"
  from upsert_calls_nonempty [OF a]
  show "vectors \<noteq> []" and "\<forall>v \<in> set vectors. \<not> malformed_record v" by simp_all
qed

lemma malformed_bad_vectors:
  "\<not> malformed_record (bad_vectors ! 0)" "malformed_record (bad_vectors ! 1)" "length bad_vectors = 2"
  by (simp_all add: bad_vectors_def malformed_record_def is_dict_def has_field_def is_list_def)

lemma str_nat_1: "str_nat 1 = ''1''" "str_nat (Suc 0) = ''1''"
  by code_simp+

lemma check_bad_vector:
  "check_vector 1 (bad_vectors ! 1) = Inl (ValidationError ''Vector at index 1 missing 'values' field'')"
  by (simp add: bad_vectors_def check_vector_def str_nat_1)

theorem upsert_rejects_malformed_batch_witness:
  "PineconeIndex_upsert demo_index bad_vectors =
     (Inl (ValidationError ''Error formatting vector at index 1: Vector at index 1 missing 'values' field''), [])
   \<and> ChromaCollection_upsert demo_collection bad_vectors =
     (Inl (ValidationError ''Error formatting vector at index 1: Vector at index 1 missing 'values' field''), [])
   \<and> PineconeIndex_upsert demo_index [] = (Inl (ValidationError ''Vectors list cannot be empty''), [])
   \<and> ChromaCollection_upsert demo_collection [] = (Inl (ValidationError ''Vectors list cannot be empty''), [])"
proof -
  note e = upsert_rejects_malformed_batch [of "[]" demo_index demo_collection]
  have ex: "\<exists>v \<in> set bad_vectors. malformed_record v"
    using malformed_bad_vectors nth_mem [of 1 bad_vectors] by auto
  with upsert_rejects_malformed_batch [of bad_vectors demo_index demo_collection]
  obtain i msg where i: "i < length bad_vectors" "malformed_record (bad_vectors ! i)"
    and c: "check_vector i (bad_vectors ! i) = Inl (ValidationError msg)"
    and r: "PineconeIndex_upsert demo_index bad_vectors =
               (Inl (ValidationError (''Error formatting vector at index '' @ str_nat i @ '': '' @ msg)), [])"
           "ChromaCollection_upsert demo_collection bad_vectors =
               (Inl (ValidationError (''Error formatting vector at index '' @ str_nat i @ '': '' @ msg)), [])"
    by blast
  from i malformed_bad_vectors have i1: "i = 1" by (cases i) auto
  note s = str_nat_1
  from c i1 check_bad_vector have "msg = ''Vector at index 1 missing 'values' field''" by simp
  with r i1 s e show ?thesis by simp
qed

text \<open>
  Claim C7.  For a non-empty batch of well-formed records, the Pinecone adapter issues
  exactly one native upsert call, whose argument has one tuple \<open>(id, values, metadata)\<close>
  per record in the batch's order, and the Chroma adapter issues exactly one native add
  call with three sequences, each as long as the batch, whose \<open>i\<close>-th elements are the
  \<open>id\<close>, \<open>values\<close> and \<open>metadata\<close> of the \<open>i\<close>-th record.
\<close>

theorem upsert_issues_one_reshaped_call:
  assumes "vectors \<noteq> []" and "\<forall>v \<in> set vectors. \<not> malformed_record v"
  shows "(\<exists>ts. snd (PineconeIndex_upsert index vectors) = [IndexUpsert ts]
            \<and> length ts = length vectors
            \<and> (\<forall>i<length vectors. tuple_of_record (vectors ! i) (ts ! i)))
       \<and> (\<exists>ids embeddings metadatas.
            snd (ChromaCollection_upsert collection vectors) = [CollectionAdd ids embeddings metadatas]
            \<and> length ids = length vectors \<and> length embeddings = length vectors
            \<and> length metadatas = length vectors
            \<and> (\<forall>i<length vectors.
                  tuple_of_record (vectors ! i) (ids ! i, embeddings ! i, metadatas ! i)))"
proof -
  from upsert_well_formed [OF assms, of index collection] obtain ts where
    rel: "list_all2 tuple_of_record vectors ts"
    and p: "snd (PineconeIndex_upsert index vectors) = [IndexUpsert ts]"
    and c: "snd (ChromaCollection_upsert collection vectors) =
          [CollectionAdd (map fst ts) (map (\<lambda>t. fst (snd t)) ts) (map (\<lambda>t. snd (snd t)) ts)]"
    by blast
  from rel have len: "length ts = length vectors"
    by (simp add: list_all2_lengthD)
  from rel have nth: "\<forall>i<length vectors. tuple_of_record (vectors ! i) (ts ! i)"
    by (simp add: list_all2_conv_all_nth)
  have first: "\<exists>ts. snd (PineconeIndex_upsert index vectors) = [IndexUpsert ts]
            \<and> length ts = length vectors
            \<and> (\<forall>i<length vectors. tuple_of_record (vectors ! i) (ts ! i))"
    using p len nth by blast
  have cols: "\<forall>i<length vectors. tuple_of_record (vectors ! i)
      (map fst ts ! i, map (\<lambda>t. fst (snd t)) ts ! i, map (\<lambda>t. snd (snd t)) ts ! i)"
    using nth len by simp
  have second: "\<exists>ids embeddings metadatas.
            snd (ChromaCollection_upsert collection vectors) = [CollectionAdd ids embeddings metadatas]
            \<and> length ids = length vectors \<and> length embeddings = length vectors
            \<and> length metadatas = length vectors
            \<and> (\<forall>i<length vectors.
                  tuple_of_record (vectors ! i) (ids ! i, embeddings ! i, metadatas ! i))"
    using c len cols by (intro exI conjI) (assumption | simp)+
  from first second show ?thesis by (rule conjI)
qed

lemma well_formed_test_vectors:
  "test_vectors \<noteq> []" "\<forall>v \<in> set test_vectors. \<not> malformed_record v"
  by (simp_all add: test_vectors_def malformed_record_def is_dict_def has_field_def is_list_def)

lemma length2_nth: "length xs = 2 \<Longrightarrow> xs = [xs ! 0, xs ! 1]"
  by (cases xs; cases "tl xs") auto

lemma tuple_of_test_vectors:
  "tuple_of_record (test_vectors ! 0) t \<longleftrightarrow>
     t = (PStr ''1'', PList [PFloat 0.1, PFloat 0.2, PFloat 0.3], PDict [(''text'', PStr ''test1'')])"
  "tuple_of_record (test_vectors ! 1) t \<longleftrightarrow>
     t = (PStr ''2'', PList [PFloat 0.4, PFloat 0.5, PFloat 0.6], PDict [(''text'', PStr ''test2'')])"
  "tuple_of_record (test_vectors ! Suc 0) t \<longleftrightarrow>
     t = (PStr ''2'', PList [PFloat 0.4, PFloat 0.5, PFloat 0.6], PDict [(''text'', PStr ''test2'')])"
  by (cases t; auto simp: test_vectors_def tuple_of_record_def)+

theorem upsert_issues_one_reshaped_call_witness:
  "snd (PineconeIndex_upsert demo_index test_vectors) =
     [IndexUpsert
        [(PStr ''1'', PList [PFloat 0.1, PFloat 0.2, PFloat 0.3], PDict [(''text'', PStr ''test1'')]),
         (PStr ''2'', PList [PFloat 0.4, PFloat 0.5, PFloat 0.6], PDict [(''text'', PStr ''test2'')])]]
   \<and> snd (ChromaCollection_upsert demo_collection test_vectors) =
     [CollectionAdd [PStr ''1'', PStr ''2'']
        [PList [PFloat 0.1, PFloat 0.2, PFloat 0.3], PList [PFloat 0.4, PFloat 0.5, PFloat 0.6]]
        [PDict [(''text'', PStr ''test1'')], PDict [(''text'', PStr ''test2'')]]]"
proof -
  have len: "length test_vectors = 2" by (simp add: test_vectors_def)
  from upsert_issues_one_reshaped_call [OF well_formed_test_vectors, of demo_index demo_collection]
  obtain ts ids embeddings metadatas where
    p: "snd (PineconeIndex_upsert demo_index test_vectors) = [IndexUpsert ts]"
       "length ts = 2" "\<forall>i<2. tuple_of_record (test_vectors ! i) (ts ! i)"
    and c: "snd (ChromaCollection_upsert demo_collection test_vectors) =
         [CollectionAdd ids embeddings metadatas]"
       "length ids = 2" "length embeddings = 2" "length metadatas = 2"
       "\<forall>i<2. tuple_of_record (test_vectors ! i) (ids ! i, embeddings ! i, metadatas ! i)"
    unfolding len by blast
  from p(3) have "tuple_of_record (test_vectors ! 0) (ts ! 0)" "tuple_of_record (test_vectors ! 1) (ts ! 1)"
    by simp_all
  then have ts: "ts = [(PStr ''1'', PList [PFloat 0.1, PFloat 0.2, PFloat 0.3], PDict [(''text'', PStr ''test1'')]),
         (PStr ''2'', PList [PFloat 0.4, PFloat 0.5, PFloat 0.6], PDict [(''text'', PStr ''test2'')])]"
    using length2_nth [OF p(2)] by (simp add: tuple_of_test_vectors)
  from c(5) have "tuple_of_record (test_vectors ! 0) (ids ! 0, embeddings ! 0, metadatas ! 0)"
    "tuple_of_record (test_vectors ! 1) (ids ! 1, embeddings ! 1, metadatas ! 1)"
    by simp_all
  then have "ids = [PStr ''1'', PStr ''2'']"
    "embeddings = [PList [PFloat 0.1, PFloat 0.2, PFloat 0.3], PList [PFloat 0.4, PFloat 0.5, PFloat 0.6]]"
    "metadatas = [PDict [(''text'', PStr ''test1'')], PDict [(''text'', PStr ''test2'')]]"
    using length2_nth [OF c(2)] length2_nth [OF c(3)] length2_nth [OF c(4)]
    by (simp_all add: tuple_of_test_vectors)
  with p(1) c(1) ts show ?thesis by simp
qed

section \<open>Query: validation and the shape of the result\<close>

lemma validate_query_invalid:
  "\<not> valid_query vector top_k \<Longrightarrow> \<exists>msg. validate_query vector top_k = Some (ValidationError msg)"
  by (auto simp: valid_query_def validate_query_def split: pyval.splits)

lemma validate_query_valid:
  "valid_query vector top_k \<Longrightarrow> validate_query vector top_k = None"
  by (auto simp: valid_query_def validate_query_def split: pyval.splits)

text \<open>
  Claim C5.  On both adapters, a query whose vector is not a list, is the empty list, or
  contains an element that is not a number, or whose \<open>top_k\<close> is below one, is rejected
  with a \<open>ValidationError\<close> (the same message on both adapters) and no call reaches
  the provider.
\<close>

theorem query_rejects_invalid_input:
  assumes "\<not> is_list vector \<or> vector = PList []
     \<or> (\<exists>xs. vector = PList xs \<and> (\<exists>x \<in> set xs. \<not> is_number x)) \<or> top_k < 1"
  shows "\<exists>msg. PineconeIndex_query index vector top_k = (Inl (ValidationError msg), [])
           \<and> ChromaCollection_query collection vector top_k = (Inl (ValidationError msg), [])"
proof -
  from assms have "\<not> valid_query vector top_k"
    by (auto simp: valid_query_def is_list_def list_all_iff split: pyval.splits)
  from validate_query_invalid [OF this] obtain msg where
    "validate_query vector top_k = Some (ValidationError msg)" ..
  then have "PineconeIndex_query index vector top_k = (Inl (ValidationError msg), [])
           \<and> ChromaCollection_query collection vector top_k = (Inl (ValidationError msg), [])"
    by (simp add: PineconeIndex_query_def ChromaCollection_query_def)
  then show ?thesis ..
qed

theorem query_rejects_invalid_input_witness:
  "(\<exists>msg. PineconeIndex_query demo_index (PList [PFloat 0.1, PFloat 0.2, PFloat 0.3]) 0
            = (Inl (ValidationError msg), [])
         \<and> ChromaCollection_query demo_collection (PList [PFloat 0.1, PFloat 0.2, PFloat 0.3]) 0
            = (Inl (ValidationError msg), []))
   \<and> (\<exists>msg. PineconeIndex_query demo_index (PList [PFloat 0.1, PStr ''x'']) 10
            = (Inl (ValidationError msg), [])
         \<and> ChromaCollection_query demo_collection (PList [PFloat 0.1, PStr ''x'']) 10
            = (Inl (ValidationError msg), []))
   \<and> (\<exists>msg. PineconeIndex_query demo_index (PStr ''abc'') 10 = (Inl (ValidationError msg), [])
         \<and> ChromaCollection_query demo_collection (PStr ''abc'') 10 = (Inl (ValidationError msg), []))
   \<and> (\<exists>msg. PineconeIndex_query demo_index (PList []) 10 = (Inl (ValidationError msg), [])
         \<and> ChromaCollection_query demo_collection (PList []) 10 = (Inl (ValidationError msg), []))"
proof (intro conjI)
  show "\<exists>msg. PineconeIndex_query demo_index (PList [PFloat 0.1, PFloat 0.2, PFloat 0.3]) 0
            = (Inl (ValidationError msg), [])
         \<and> ChromaCollection_query demo_collection (PList [PFloat 0.1, PFloat 0.2, PFloat 0.3]) 0
            = (Inl (ValidationError msg), [])"
    by (rule query_rejects_invalid_input) simp
  show "\<exists>msg. PineconeIndex_query demo_index (PList [PFloat 0.1, PStr ''x'']) 10
            = (Inl (ValidationError msg), [])
         \<and> ChromaCollection_query demo_collection (PList [PFloat 0.1, PStr ''x'']) 10
            = (Inl (ValidationError msg), [])"
    by (rule query_rejects_invalid_input) simp
  show "\<exists>msg. PineconeIndex_query demo_index (PStr ''abc'') 10 = (Inl (ValidationError msg), [])
         \<and> ChromaCollection_query demo_collection (PStr ''abc'') 10 = (Inl (ValidationError msg), [])"
    by (rule query_rejects_invalid_input) (simp add: is_list_def)
  show "\<exists>msg. PineconeIndex_query demo_index (PList []) 10 = (Inl (ValidationError msg), [])
         \<and> ChromaCollection_query demo_collection (PList []) 10 = (Inl (ValidationError msg), [])"
    by (rule query_rejects_invalid_input) simp
qed

lemma format_result_response:
  assumes "chroma_response results ids metadatas distances" and "i < length ids"
  shows "format_result results i = Inr (canonical_result (ids ! i, metadatas ! i, distances ! i))"
  using assms
  by (simp add: chroma_response_def format_result_def ebind_def canonical_result_def)

lemma format_results_response:
  assumes "chroma_response results ids metadatas distances"
  shows "\<forall>i \<in> set is. i < length ids \<Longrightarrow>
    format_results results is acc =
      Inr (acc @ map (\<lambda>i. canonical_result (ids ! i, metadatas ! i, distances ! i)) is)"
proof (induction "is" arbitrary: acc)
  case Nil
  then show ?case by simp
next
  case (Cons i rest)
  from Cons.prems have i: "i < length ids" and rest: "\<forall>i \<in> set rest. i < length ids"
    by simp_all
  have step: "format_result results i = Inr (canonical_result (ids ! i, metadatas ! i, distances ! i))"
    by (rule format_result_response [OF assms i])
  have "format_results results (i # rest) acc =
      format_results results rest (acc @ [canonical_result (ids ! i, metadatas ! i, distances ! i)])"
    by (simp add: step)
  also have "\<dots> = Inr ((acc @ [canonical_result (ids ! i, metadatas ! i, distances ! i)])
      @ map (\<lambda>i. canonical_result (ids ! i, metadatas ! i, distances ! i)) rest)"
    by (rule Cons.IH [OF rest])
  finally show ?case by simp
qed

lemma map_nth_zip3:
  assumes "length ys = length xs" and "length zs = length xs"
  shows "map (\<lambda>i. f (xs ! i, ys ! i, zs ! i)) [0..<length xs] = map f (zip xs (zip ys zs))"
proof (rule nth_equalityI)
  show "length (map (\<lambda>i. f (xs ! i, ys ! i, zs ! i)) [0..<length xs])
      = length (map f (zip xs (zip ys zs)))"
    using assms by simp
next
  fix i assume "i < length (map (\<lambda>i. f (xs ! i, ys ! i, zs ! i)) [0..<length xs])"
  then have "i < length xs" by simp
  with assms show "map (\<lambda>i. f (xs ! i, ys ! i, zs ! i)) [0..<length xs] ! i
      = map f (zip xs (zip ys zs)) ! i"
    by simp
qed

lemma chroma_query_response:
  assumes "valid_query vector top_k"
    and "native_collection_query collection [vector] top_k [''metadatas'', ''distances''] = Inr results"
    and "chroma_response results ids metadatas distances"
  shows "ChromaCollection_query collection vector top_k =
     (Inr (PList (map canonical_result (zip ids (zip metadatas distances)))),
      [CollectionQuery [vector] top_k [''metadatas'', ''distances'']])"
proof -
  have r: "format_results results [0..<length ids] [] =
      Inr (map (\<lambda>i. canonical_result (ids ! i, metadatas ! i, distances ! i)) [0..<length ids])"
    using format_results_response [OF assms(3), of "[0..<length ids]" "[]"] by simp
  have z: "map (\<lambda>i. canonical_result (ids ! i, metadatas ! i, distances ! i)) [0..<length ids]
      = map canonical_result (zip ids (zip metadatas distances))"
    using assms(3) by (intro map_nth_zip3) (simp_all add: chroma_response_def)
  have g: "getitem_key results ''ids'' = Inr (PList [PList ids])"
    using assms(3) by (simp add: chroma_response_def)
  show ?thesis
    using validate_query_valid [OF assms(1)] assms(2) g r z
    by (simp add: ChromaCollection_query_def ebind_def)
qed


lemma valid_test_query: "valid_query test_query_vector 1" "valid_query test_query_vector 5"
  by (simp_all add: valid_query_def test_query_vector_def)

lemma mock_collection_response:
  "native_collection_query mock_collection [v] k inc = Inr (PDict
        [(''ids'', PList [PList [PStr ''1'']]),
         (''metadatas'', PList [PList [PDict [(''text'', PStr ''test1'')]]]),
         (''distances'', PList [PList [PFloat 0.1]])])"
  "chroma_response (PDict
        [(''ids'', PList [PList [PStr ''1'']]),
         (''metadatas'', PList [PList [PDict [(''text'', PStr ''test1'')]]]),
         (''distances'', PList [PList [PFloat 0.1]])])
     [PStr ''1''] [PDict [(''text'', PStr ''test1'')]] [0.1]"
  by (simp_all add: mock_collection_def chroma_response_def)


text \<open>
  Claim C6, as amended.  Neither adapter truncates.  For a valid query, the Pinecone
  adapter returns exactly the match list of the native response, and the Chroma adapter
  returns exactly one canonical record per match of a well-formed native response, in
  order, without raising, however many matches the provider returned; the result is
  therefore as long as the provider's answer, and at most \<open>top_k\<close> long when the
  provider returned at most \<open>top_k\<close> matches.  The counterexample is an index whose native
  query answers a request for one match with two.
\<close>

theorem query_returns_provider_matches:
  assumes "valid_query vector top_k"
  shows "(\<forall>results ms.
            native_query index vector top_k = Inr results
            \<and> getitem_key results ''matches'' = Inr (PList ms) \<longrightarrow>
            PineconeIndex_query index vector top_k = (Inr (PList ms), [IndexQuery vector top_k]))
       \<and> (\<forall>results ids metadatas distances.
            native_collection_query collection [vector] top_k [''metadatas'', ''distances'']
              = Inr results
            \<and> chroma_response results ids metadatas distances \<longrightarrow>
            (\<exists>rs. ChromaCollection_query collection vector top_k =
                     (Inr (PList rs), [CollectionQuery [vector] top_k [''metadatas'', ''distances'']])
                 \<and> rs = map canonical_result (zip ids (zip metadatas distances))
                 \<and> length rs = length ids))"
proof (intro conjI allI impI)
  fix results ms
  assume "native_query index vector top_k = Inr results
            \<and> getitem_key results ''matches'' = Inr (PList ms)"
  then show "PineconeIndex_query index vector top_k = (Inr (PList ms), [IndexQuery vector top_k])"
    using validate_query_valid [OF assms]
    by (simp add: PineconeIndex_query_def ebind_def)
next
  fix results ids metadatas distances
  assume a: "native_collection_query collection [vector] top_k [''metadatas'', ''distances'']
              = Inr results
            \<and> chroma_response results ids metadatas distances"
  then have len: "length metadatas = length ids" "length distances = length ids"
    by (simp_all add: chroma_response_def)
  from a chroma_query_response [OF assms, of collection results ids metadatas distances]
  have "ChromaCollection_query collection vector top_k =
     (Inr (PList (map canonical_result (zip ids (zip metadatas distances)))),
      [CollectionQuery [vector] top_k [''metadatas'', ''distances'']])" by simp
  moreover have "length (map canonical_result (zip ids (zip metadatas distances))) = length ids"
    using len by simp
  ultimately show "\<exists>rs. ChromaCollection_query collection vector top_k =
                     (Inr (PList rs), [CollectionQuery [vector] top_k [''metadatas'', ''distances'']])
                 \<and> rs = map canonical_result (zip ids (zip metadatas distances))
                 \<and> length rs = length ids"
    by blast
qed

lemma greedy_index_response:
  "native_query greedy_index v k = Inr (PDict [(''matches'', PList
        [PDict [(''id'', PStr ''1''), (''score'', PFloat 0.9), (''metadata'', PDict [])],
         PDict [(''id'', PStr ''2''), (''score'', PFloat 0.8), (''metadata'', PDict [])]])])"
  by (simp add: greedy_index_def)

theorem query_returns_provider_matches_witness:
  "PineconeIndex_query greedy_index test_query_vector 5 =
     (Inr (PList
        [PDict [(''id'', PStr ''1''), (''score'', PFloat 0.9), (''metadata'', PDict [])],
         PDict [(''id'', PStr ''2''), (''score'', PFloat 0.8), (''metadata'', PDict [])]]),
      [IndexQuery test_query_vector 5])
   \<and> ChromaCollection_query mock_collection test_query_vector 5 =
     (Inr (PList [PDict [(''id'', PStr ''1''), (''metadata'', PDict [(''text'', PStr ''test1'')]),
                         (''score'', PFloat 0.9)]]),
      [CollectionQuery [test_query_vector] 5 [''metadatas'', ''distances'']])"
proof -
  note t = query_returns_provider_matches [OF valid_test_query(2), of greedy_index mock_collection]
  from t have p: "PineconeIndex_query greedy_index test_query_vector 5 =
     (Inr (PList
        [PDict [(''id'', PStr ''1''), (''score'', PFloat 0.9), (''metadata'', PDict [])],
         PDict [(''id'', PStr ''2''), (''score'', PFloat 0.8), (''metadata'', PDict [])]]),
      [IndexQuery test_query_vector 5])"
    by (simp add: greedy_index_response)
  from t mock_collection_response(1) [of test_query_vector 5 "[''metadatas'', ''distances'']"]
    mock_collection_response(2)
  have "\<exists>rs. ChromaCollection_query mock_collection test_query_vector 5 =
                     (Inr (PList rs), [CollectionQuery [test_query_vector] 5 [''metadatas'', ''distances'']])
                 \<and> rs = map canonical_result (zip [PStr ''1''] (zip [PDict [(''text'', PStr ''test1'')]] [0.1]))
                 \<and> length rs = length [PStr ''1'']"
    by blast
  then have c: "ChromaCollection_query mock_collection test_query_vector 5 =
     (Inr (PList [PDict [(''id'', PStr ''1''), (''metadata'', PDict [(''text'', PStr ''test1'')]),
                         (''score'', PFloat 0.9)]]),
      [CollectionQuery [test_query_vector] 5 [''metadatas'', ''distances'']])"
    by (simp add: canonical_result_def)
  from p c show ?thesis by (rule conjI)
qed

theorem query_length_counterexample:
  "fst (PineconeIndex_query greedy_index test_query_vector 1) =
     Inr (PList
        [PDict [(''id'', PStr ''1''), (''score'', PFloat 0.9), (''metadata'', PDict [])],
         PDict [(''id'', PStr ''2''), (''score'', PFloat 0.8), (''metadata'', PDict [])]])
   \<and> \<not> int (length
        [PDict [(''id'', PStr ''1''), (''score'', PFloat 0.9), (''metadata'', PDict [])],
         PDict [(''id'', PStr ''2''), (''score'', PFloat 0.8), (''metadata'', PDict [])]]) \<le> 1"
  by (simp add: PineconeIndex_query_def validate_query_def test_query_vector_def greedy_index_def
      ebind_def)

section \<open>Index and collection lifecycle\<close>

text \<open>
  Claim C9.  For a non-empty name and a dimension of at least one,
  \<open>Pinecone.create_index\<close> raises \<open>ValidationError\<close> exactly when the metric is not one of
  \<open>cosine\<close>, \<open>euclidean\<close>, \<open>dotproduct\<close>, and then issues no native call; for a metric
  in that set it issues the native create-index call with the given name, dimension
  and metric.
\<close>

theorem create_index_rejects_unknown_metric:
  assumes "name \<noteq> []" and "1 \<le> dimension"
  shows "((\<exists>msg. fst (Pinecone_create_index client name dimension metric) = Inl (ValidationError msg))
            \<longleftrightarrow> metric \<notin> {''cosine'', ''euclidean'', ''dotproduct''})
       \<and> (metric \<notin> {''cosine'', ''euclidean'', ''dotproduct''} \<longrightarrow>
            snd (Pinecone_create_index client name dimension metric) = [])
       \<and> (metric \<in> {''cosine'', ''euclidean'', ''dotproduct''} \<longrightarrow>
            snd (Pinecone_create_index client name dimension metric)
              = [ClientCreateIndex name dimension metric])"
  using assms
  by (auto simp: Pinecone_create_index_def valid_metrics_def split: sum.splits)

theorem create_index_rejects_unknown_metric_witness:
  "snd (Pinecone_create_index demo_pinecone ''new-index'' 3 ''cosine'')
     = [ClientCreateIndex ''new-index'' 3 ''cosine'']
   \<and> \<not> (\<exists>msg. fst (Pinecone_create_index demo_pinecone ''new-index'' 3 ''cosine'') = Inl (ValidationError msg))
   \<and> (\<exists>msg. fst (Pinecone_create_index demo_pinecone ''new-index'' 3 ''manhattan'') = Inl (ValidationError msg))
   \<and> snd (Pinecone_create_index demo_pinecone ''new-index'' 3 ''manhattan'') = []"
  using create_index_rejects_unknown_metric [of "''new-index''" 3 demo_pinecone "''cosine''"]
    create_index_rejects_unknown_metric [of "''new-index''" 3 demo_pinecone "''manhattan''"]
  by simp

text \<open>
  Claim C2, as amended.  For a non-empty name, \<open>ChromaClient.delete_collection\<close> returns
  normally when the native delete signals that the collection does not exist (a
  \<open>ValueError\<close>).  \<open>Pinecone.delete_index\<close> has no such case: whatever exception the
  native delete raises, a not-found condition included, is re-raised as \<open>ProviderError\<close>
  with the original message.  The counterexample deletes an index the provider does
  not know.
\<close>

theorem delete_absent_collection_or_index:
  assumes "name \<noteq> []"
  shows "(\<forall>m. native_delete_collection chroma name = Inl (ValueError m) \<longrightarrow>
            ChromaClient_delete_collection chroma name = (Inr (), [ClientDeleteCollection name]))
       \<and> (\<forall>e. native_delete_index pinecone name = Inl e \<longrightarrow>
            Pinecone_delete_index pinecone name
              = (Inl (ProviderError (''Failed to delete index: '' @ str_exc e)), [ClientDeleteIndex name]))"
  using assms by (simp add: ChromaClient_delete_collection_def Pinecone_delete_index_def)

theorem delete_absent_collection_or_index_witness:
  "ChromaClient_delete_collection demo_chroma ''test-collection''
     = (Inr (), [ClientDeleteCollection ''test-collection''])
   \<and> Pinecone_delete_index demo_pinecone ''test-index''
     = (Inl (ProviderError ''Failed to delete index: Index not found''), [ClientDeleteIndex ''test-index''])"
proof -
  have c: "native_delete_collection demo_chroma ''test-collection'' = Inl (ValueError ''Collection not found'')"
    by (simp add: demo_chroma_def)
  have p: "native_delete_index demo_pinecone ''test-index'' = Inl (OtherException ''Index not found'')"
    by (simp add: demo_pinecone_def)
  have n: "''test-collection'' \<noteq> []" "''test-index'' \<noteq> []" by simp_all
  show ?thesis
    using delete_absent_collection_or_index [OF n(1), of demo_chroma] c
      delete_absent_collection_or_index [OF n(2), of _ demo_pinecone] p
    by simp
qed

theorem delete_index_not_found_counterexample:
  "Pinecone_delete_index demo_pinecone ''missing''
     = (Inl (ProviderError ''Failed to delete index: Index not found''), [ClientDeleteIndex ''missing''])"
  by (simp add: Pinecone_delete_index_def demo_pinecone_def)

section \<open>Initialisation of the Chroma client\<close>






end
